theory Spec2Isabelle
  imports Complex_Main
begin

section \<open>Python values, exceptions and dictionaries\<close>

text \<open>
  The configuration handled by \<^verbatim>\<open>build_optimizer\<close> (bycha/optim/__init__.py) is a Python
  dict with string keys. Its values are the values a YAML/JSON configuration holds; on
  these \<^verbatim>\<open>json.dumps\<close> (line 34) is total. Floats are only carried around by this
  function, never computed with.
\<close>

datatype pyval =
    PNone
  | PBool bool
  | PInt int
  | PFloat real
  | PStr string
  | PList "pyval list"
  | PDict "(string \<times> pyval) list"

type_synonym dict = "string \<rightharpoonup> pyval"

text \<open>
  The exceptions the function can raise itself: \<^verbatim>\<open>dict.pop\<close> on a missing key
  (KeyError), \<^verbatim>\<open>getattr\<close> on a missing attribute and \<^verbatim>\<open>.lower()\<close> on a value that
  is not a string (AttributeError), \<^verbatim>\<open>in\<close> and iteration on a value of the wrong type
  (TypeError). \<open>Raised\<close> stands for whatever a collaborator raises.
\<close>

datatype exn =
    KeyError string
  | AttributeError string
  | TypeError string
  | Raised string

section \<open>Objects built by the function\<close>

datatype tensor = Tensor nat

text \<open>
  A model (models/abstract_model.py, \<^verbatim>\<open>class AbstractModel(nn.Module)\<close>): its named
  parameters in registration order, and the optimisation level that
  \<^verbatim>\<open>amp.initialize\<close> patches into it.
\<close>

record net =
  named_parameters :: "(string \<times> tensor) list"
  opt_level :: "string option"

record scheduler =
  policy :: pyval
  built :: bool
  rate :: pyval

record param_group =
  params :: "tensor list"
  weight_decay :: pyval

text \<open>
  The first argument of the optimizer class: the two-element list of group dicts of
  lines 57-62, or the iterator \<^verbatim>\<open>model.parameters()\<close> of line 64.
\<close>

datatype grouped = Groups "param_group list" | Parameters "tensor list"

datatype compression = Fp16

record hvd_kwargs =
  backward_passes_per_step :: "pyval option"
  compression :: "compression option"

datatype optim =
    Base string grouped pyval dict
  | Distributed optim "(string \<times> tensor) list" hvd_kwargs
  | Amp optim string pyval

record handle =
  h_model :: net
  h_optimizer :: optim
  h_lr_scheduler :: scheduler
  h_kwargs :: dict

section \<open>Collaborators and the process environment\<close>

text \<open>
  Everything \<^verbatim>\<open>build_optimizer\<close> reads from outside its arguments: Python's
  \<^verbatim>\<open>eval\<close>, \<^verbatim>\<open>create_rate_scheduler\<close> (bycha.utils.rate_schedulers), the registry of
  \<^verbatim>\<open>setup_registry('optim', ...)\<close>, the namespace \<^verbatim>\<open>torch.optim\<close>, the argument names
  \<^verbatim>\<open>getfullargspec(Optimizer).args[4:]\<close> of the handle class, the error (if any) the
  optimizer class raises on construction, and \<^verbatim>\<open>Environment()\<close>. Classes are
  identified by their names.
\<close>

record externals =
  py_eval :: "pyval \<Rightarrow> exn + pyval"
  create_rate_scheduler :: "pyval \<Rightarrow> exn + scheduler"
  registry :: "string \<rightharpoonup> string"
  torch_optim :: "string \<rightharpoonup> string"
  handle_args :: "string list"
  init_error :: "string \<Rightarrow> grouped \<Rightarrow> pyval \<Rightarrow> dict \<Rightarrow> exn option"
  distributed_world :: int
  fp16 :: bool

section \<open>State: the heap of dict objects and the trace of effects\<close>

text \<open>
  Dicts are mutable objects. The caller's configuration and the dicts bound to
  \<^verbatim>\<open>configs\<close> and \<^verbatim>\<open>kwargs\<close> live in a heap, addressed by position; a new object is
  appended. The trace records, in order, the effects on collaborators: logging,
  construction of objects, collective calls.
\<close>

type_synonym addr = nat

datatype event =
    Logged pyval
  | ScheduleCreated pyval
  | ScheduleBuilt
  | OptimizerConstructed string
  | DistributedWrapped
  | BroadcastParameters nat
  | BroadcastOptimizerState nat
  | AmpInitialized
  | HandleConstructed

record state =
  heap :: "dict list"
  trace :: "event list"

type_synonym 'a M = "state \<Rightarrow> (exn + 'a) \<times> state"

definition returnM :: "'a \<Rightarrow> 'a M" where
  "returnM x = (\<lambda>s. (Inr x, s))"

definition raiseM :: "exn \<Rightarrow> 'a M" where
  "raiseM e = (\<lambda>s. (Inl e, s))"

text \<open>Sequencing: an exception ends the run, keeping the state reached.\<close>

definition bindM :: "'a M \<Rightarrow> ('a \<Rightarrow> 'b M) \<Rightarrow> 'b M" where
  "bindM m f = (\<lambda>s. case m s of (Inl e, s') \<Rightarrow> (Inl e, s') | (Inr x, s') \<Rightarrow> f x s')"

definition liftE :: "exn + 'a \<Rightarrow> 'a M" where
  "liftE r = (\<lambda>s. (r, s))"

definition emit :: "event \<Rightarrow> unit M" where
  "emit ev = (\<lambda>s. (Inr (), s\<lparr>trace := trace s @ [ev]\<rparr>))"

definition new_dict :: "dict \<Rightarrow> addr M" where
  "new_dict d = (\<lambda>s. (Inr (length (heap s)), s\<lparr>heap := heap s @ [d]\<rparr>))"

definition get_dict :: "addr \<Rightarrow> dict M" where
  "get_dict a = (\<lambda>s. (Inr (heap s ! a), s))"

text \<open>\<^verbatim>\<open>deepcopy(configs)\<close>: a new object with the same contents.\<close>

definition deepcopy :: "addr \<Rightarrow> addr M" where
  "deepcopy a = bindM (get_dict a) new_dict"

text \<open>\<^verbatim>\<open>d.pop(k)\<close>: KeyError when the key is missing, else the key is removed in place.\<close>

definition dict_pop :: "addr \<Rightarrow> string \<Rightarrow> pyval M" where
  "dict_pop a k = (\<lambda>s.
     case (heap s ! a) k of
       None \<Rightarrow> (Inl (KeyError k), s)
     | Some v \<Rightarrow> (Inr v, s\<lparr>heap := (heap s)[a := (heap s ! a)(k := None)]\<rparr>))"

definition dict_contains :: "addr \<Rightarrow> string \<Rightarrow> bool M" where
  "dict_contains a k = (\<lambda>s. (Inr (k \<in> dom (heap s ! a)), s))"

section \<open>Strings\<close>

text \<open>\<^verbatim>\<open>str.lower()\<close> on ASCII letters.\<close>

definition lower_char :: "char \<Rightarrow> char" where
  "lower_char c =
     (case map_of (zip ''ABCDEFGHIJKLMNOPQRSTUVWXYZ'' ''abcdefghijklmnopqrstuvwxyz'') c of
        Some l \<Rightarrow> l
      | None \<Rightarrow> c)"

definition lower :: "string \<Rightarrow> string" where
  "lower s = map lower_char s"

fun starts_with :: "string \<Rightarrow> string \<Rightarrow> bool" where
  "starts_with [] s = True"
| "starts_with (c # sub) [] = False"
| "starts_with (c # sub) (d # s) = (c = d \<and> starts_with sub s)"

text \<open>\<^verbatim>\<open>sub in s\<close> for two strings: \<open>sub\<close> occurs in \<open>s\<close> as a contiguous substring.\<close>

fun contains :: "string \<Rightarrow> string \<Rightarrow> bool" where
  "contains sub [] = (sub = [])"
| "contains sub (d # s) = (starts_with sub (d # s) \<or> contains sub s)"

section \<open>The stages of build_optimizer\<close>

subsection \<open>Lines 20-34: copy, class name, literal evaluation, log\<close>

text \<open>
  Lines 25-30: \<^verbatim>\<open>try: v = eval(v)  except: pass  finally: kwargs[k] = v\<close>. The bare
  \<^verbatim>\<open>except\<close> catches every exception of \<^verbatim>\<open>eval\<close>; the value then stays as it was.
\<close>

definition eval_or_keep :: "externals \<Rightarrow> pyval \<Rightarrow> pyval" where
  "eval_or_keep X v = (case py_eval X v of Inr v' \<Rightarrow> v' | Inl e \<Rightarrow> v)"

text \<open>Lines 23-31: the new dict \<^verbatim>\<open>kwargs\<close> gets every key of \<^verbatim>\<open>configs\<close>.\<close>

definition eval_values :: "externals \<Rightarrow> dict \<Rightarrow> dict" where
  "eval_values X items = (\<lambda>k. map_option (eval_or_keep X) (items k))"

definition eval_items :: "externals \<Rightarrow> addr \<Rightarrow> addr M" where
  "eval_items X configs =
     bindM (get_dict configs) (\<lambda>items.
       new_dict (eval_values X items))"

definition resolve :: "externals \<Rightarrow> addr \<Rightarrow> (pyval \<times> addr) M" where
  "resolve X configs =
     bindM (deepcopy configs) (\<lambda>configs.
     bindM (dict_pop configs ''class'') (\<lambda>name.
     bindM (eval_items X configs) (\<lambda>kwargs.
     bindM (emit (Logged name)) (\<lambda>_.
     returnM (name, kwargs)))))"

subsection \<open>Lines 36-38: the rate schedule\<close>

definition build_schedule :: "externals \<Rightarrow> addr \<Rightarrow> scheduler M" where
  "build_schedule X configs =
     bindM (dict_pop configs ''lr'') (\<lambda>lr.
     bindM (liftE (create_rate_scheduler X lr)) (\<lambda>lr_scheduler.
     bindM (emit (ScheduleCreated lr)) (\<lambda>_.
     bindM (emit ScheduleBuilt) (\<lambda>_.
     returnM (lr_scheduler\<lparr>built := True\<rparr>)))))"

subsection \<open>Lines 40-44: the handle's own keyword arguments\<close>

fun pop_args :: "string list \<Rightarrow> dict \<times> dict \<Rightarrow> dict \<times> dict" where
  "pop_args [] (optimizer_kwargs, c) = (optimizer_kwargs, c)"
| "pop_args (key # args) (optimizer_kwargs, c) =
     (if key \<in> dom c
      then pop_args args (optimizer_kwargs(key := c key), c(key := None))
      else pop_args args (optimizer_kwargs, c))"

definition split_handle_kwargs :: "string list \<Rightarrow> addr \<Rightarrow> dict M" where
  "split_handle_kwargs args configs = (\<lambda>s.
     let (optimizer_kwargs, c) = pop_args args (Map.empty, heap s ! configs)
     in (Inr optimizer_kwargs, s\<lparr>heap := (heap s)[configs := c]\<rparr>))"

subsection \<open>Lines 46-51: the optimizer class\<close>

text \<open>
  \<^verbatim>\<open>name.lower() in registry\<close> decides; the fallback is \<^verbatim>\<open>getattr(mod, name)\<close> with the
  name as written.
\<close>

definition find_class :: "externals \<Rightarrow> pyval \<Rightarrow> exn + string" where
  "find_class X name =
     (case name of
        PStr n \<Rightarrow>
          (if lower n \<in> dom (registry X) then Inr (the (registry X (lower n)))
           else (case torch_optim X n of
                   Some c \<Rightarrow> Inr c
                 | None \<Rightarrow> Inl (AttributeError n)))
      | _ \<Rightarrow> Inl (AttributeError ''lower''))"

subsection \<open>Lines 53-64: parameter groups\<close>

text \<open>Iterating a value: a list gives its items, a string its characters, a dict its keys.\<close>

fun py_iter :: "pyval \<Rightarrow> exn + pyval list" where
  "py_iter (PList vs) = Inr vs"
| "py_iter (PStr s) = Inr (map (\<lambda>c. PStr [c]) s)"
| "py_iter (PDict kvs) = Inr (map (\<lambda>kv. PStr (fst kv)) kvs)"
| "py_iter v = Inl (TypeError ''not iterable'')"

text \<open>\<^verbatim>\<open>any(nd in n for nd in nds)\<close>: stops at the first hit; \<^verbatim>\<open>nd in n\<close> needs a string.\<close>

fun any_in :: "pyval list \<Rightarrow> string \<Rightarrow> exn + bool" where
  "any_in [] n = Inr False"
| "any_in (PStr nd # nds) n = (if contains nd n then Inr True else any_in nds n)"
| "any_in (v # nds) n = Inl (TypeError ''in <string>'')"

definition matches_any :: "pyval \<Rightarrow> string \<Rightarrow> exn + bool" where
  "matches_any no_decay n =
     (case py_iter no_decay of Inl e \<Rightarrow> Inl e | Inr nds \<Rightarrow> any_in nds n)"

definition matches_none :: "pyval \<Rightarrow> string \<Rightarrow> exn + bool" where
  "matches_none no_decay n =
     (case matches_any no_decay n of Inl e \<Rightarrow> Inl e | Inr b \<Rightarrow> Inr (\<not> b))"

text \<open>The items of an iterator that pass a test, in order; the test may raise.\<close>

fun select :: "(string \<Rightarrow> exn + bool) \<Rightarrow> (string \<times> tensor) list \<Rightarrow> exn + tensor list" where
  "select c [] = Inr []"
| "select c ((n, p) # rest) =
     (case c n of
        Inl e \<Rightarrow> Inl e
      | Inr b \<Rightarrow>
          (case select c rest of
             Inl e \<Rightarrow> Inl e
           | Inr ps \<Rightarrow> Inr (if b then p # ps else ps)))"

text \<open>
  \<^verbatim>\<open>nn.Module.named_parameters()\<close> is a generator function: the object it returns
  yields every item once. A generator is modelled by the items it has not yielded
  yet. A list comprehension over it returns the selected items and leaves the
  generator exhausted.
\<close>

type_synonym 'a generator = "'a list"

definition comprehension ::
  "(string \<Rightarrow> exn + bool) \<Rightarrow> (string \<times> tensor) generator
     \<Rightarrow> exn + (tensor list \<times> (string \<times> tensor) generator)" where
  "comprehension c gen =
     (case select c gen of Inl e \<Rightarrow> Inl e | Inr ps \<Rightarrow> Inr (ps, []))"

definition group_parameters :: "net \<Rightarrow> addr \<Rightarrow> grouped M" where
  "group_parameters model configs =
     bindM (dict_contains configs ''no_decay'') (\<lambda>present.
     if present then
       bindM (returnM (named_parameters model)) (\<lambda>named_parameters.
       bindM (dict_pop configs ''no_decay'') (\<lambda>no_decay.
       bindM (dict_pop configs ''weight_decay'') (\<lambda>weight_decay.
       bindM (liftE (comprehension (matches_none no_decay) named_parameters))
         (\<lambda>(decayed, named_parameters).
       bindM (liftE (comprehension (matches_any no_decay) named_parameters))
         (\<lambda>(plain, named_parameters).
       returnM (Groups
         [\<lparr>params = decayed, weight_decay = weight_decay\<rparr>,
          \<lparr>params = plain, weight_decay = PFloat 0\<rparr>]))))))
     else returnM (Parameters (map snd (named_parameters model))))"

subsection \<open>Line 66: the base optimizer\<close>

definition construct :: "externals \<Rightarrow> string \<Rightarrow> grouped \<Rightarrow> pyval \<Rightarrow> addr \<Rightarrow> optim M" where
  "construct X cls grouped_parameters lr configs =
     bindM (get_dict configs) (\<lambda>kw.
     case init_error X cls grouped_parameters lr kw of
       Some e \<Rightarrow> raiseM e
     | None \<Rightarrow>
         bindM (emit (OptimizerConstructed cls)) (\<lambda>_.
         returnM (Base cls grouped_parameters lr kw)))"

subsection \<open>Lines 68-80: the distributed stage\<close>

definition distribute :: "externals \<Rightarrow> net \<Rightarrow> optim \<Rightarrow> dict \<Rightarrow> bool \<Rightarrow> optim M" where
  "distribute X model optimizer optimizer_kwargs enable_apex =
     (if distributed_world X > 1 then
        bindM (returnM
          \<lparr>backward_passes_per_step = optimizer_kwargs ''update_frequency'',
           compression = (if fp16 X \<and> \<not> enable_apex then Some Fp16 else None)\<rparr>) (\<lambda>hvd_kwargs.
        bindM (emit DistributedWrapped) (\<lambda>_.
        bindM (emit (BroadcastParameters 0)) (\<lambda>_.
        bindM (emit (BroadcastOptimizerState 0)) (\<lambda>_.
        returnM (Distributed optimizer (named_parameters model) hvd_kwargs)))))
      else returnM optimizer)"

subsection \<open>Lines 82-88: the apex stage\<close>

definition precision :: "net \<Rightarrow> optim \<Rightarrow> dict \<Rightarrow> bool \<Rightarrow> (net \<times> optim) M" where
  "precision model optimizer optimizer_kwargs enable_apex =
     (if enable_apex then
        bindM (returnM
          (case optimizer_kwargs ''update_frequency'' of Some v \<Rightarrow> v | None \<Rightarrow> PInt 1))
          (\<lambda>update_frequency.
        bindM (emit AmpInitialized) (\<lambda>_.
        returnM (model\<lparr>opt_level := Some ''O1''\<rparr>, Amp optimizer ''O1'' update_frequency)))
      else returnM (model, optimizer))"

subsection \<open>Lines 36-66 together: schedule, keyword split, class, groups, base optimizer\<close>

definition base_optimizer ::
  "externals \<Rightarrow> net \<Rightarrow> pyval \<Rightarrow> addr \<Rightarrow> (scheduler \<times> dict \<times> optim) M" where
  "base_optimizer X model name configs =
     bindM (build_schedule X configs) (\<lambda>lr_scheduler.
     bindM (split_handle_kwargs (handle_args X) configs) (\<lambda>optimizer_kwargs.
     bindM (liftE (find_class X name)) (\<lambda>cls.
     bindM (group_parameters model configs) (\<lambda>grouped_parameters.
     bindM (construct X cls grouped_parameters (rate lr_scheduler) configs) (\<lambda>optimizer.
     returnM (lr_scheduler, optimizer_kwargs, optimizer))))))"

subsection \<open>Lines 68-91 together: the optional stages and the handle\<close>

definition wrap ::
  "externals \<Rightarrow> net \<Rightarrow> bool \<Rightarrow> scheduler \<Rightarrow> dict \<Rightarrow> optim \<Rightarrow> (net \<times> handle) M" where
  "wrap X model enable_apex lr_scheduler optimizer_kwargs optimizer =
     bindM (distribute X model optimizer optimizer_kwargs enable_apex) (\<lambda>optimizer.
     bindM (precision model optimizer optimizer_kwargs enable_apex) (\<lambda>(model, optimizer).
     bindM (returnM (optimizer_kwargs(''enable_apex'' \<mapsto> PBool enable_apex)))
       (\<lambda>optimizer_kwargs.
     bindM (emit HandleConstructed) (\<lambda>_.
     returnM (model,
       \<lparr>h_model = model, h_optimizer = optimizer, h_lr_scheduler = lr_scheduler,
        h_kwargs = optimizer_kwargs\<rparr>)))))"

subsection \<open>The whole function\<close>

definition build_optimizer :: "externals \<Rightarrow> net \<Rightarrow> addr \<Rightarrow> bool \<Rightarrow> (net \<times> handle) M" where
  "build_optimizer X model configs enable_apex =
     bindM (resolve X configs) (\<lambda>(name, configs).
     bindM (base_optimizer X model name configs) (\<lambda>(lr_scheduler, optimizer_kwargs, optimizer).
     wrap X model enable_apex lr_scheduler optimizer_kwargs optimizer))"

section \<open>Notions used in the statements\<close>

text \<open>
  What the loop of lines 42-44 amounts to: the handle's keyword arguments are the
  entries of \<^verbatim>\<open>configs\<close> under the handle's argument names, and \<^verbatim>\<open>configs\<close> keeps
  the others.
\<close>

definition keep_keys :: "string list \<Rightarrow> dict \<Rightarrow> dict" where
  "keep_keys args d = (\<lambda>k. if k \<in> set args then d k else None)"

definition drop_keys :: "string list \<Rightarrow> dict \<Rightarrow> dict" where
  "drop_keys args d = (\<lambda>k. if k \<in> set args then None else d k)"

text \<open>The state after lines 20-34, when the configuration has a class name.\<close>

definition resolved :: "externals \<Rightarrow> addr \<Rightarrow> pyval \<Rightarrow> state \<Rightarrow> state" where
  "resolved X a name s =
     s\<lparr>heap := heap s @ [(heap s ! a)(''class'' := None),
                         eval_values X ((heap s ! a)(''class'' := None))],
       trace := trace s @ [Logged name]\<rparr>"

text \<open>What lines 53-64 compute from the contents \<open>kw\<close> of \<^verbatim>\<open>configs\<close>, when they return.\<close>

definition grouping :: "net \<Rightarrow> dict \<Rightarrow> grouped \<Rightarrow> dict \<Rightarrow> bool" where
  "grouping model kw g kwf =
     (case kw ''no_decay'' of
        None \<Rightarrow> g = Parameters (map snd (named_parameters model)) \<and> kwf = kw
      | Some no_decay \<Rightarrow>
          (\<exists>wd decayed.
             kw ''weight_decay'' = Some wd
           \<and> select (matches_none no_decay) (named_parameters model) = Inr decayed
           \<and> g = Groups [\<lparr>params = decayed, weight_decay = wd\<rparr>,
                         \<lparr>params = [], weight_decay = PFloat 0\<rparr>]
           \<and> kwf = kw(''no_decay'' := None, ''weight_decay'' := None)))"

text \<open>Projections of an optimizer object: through the wrappers down to the base.\<close>

fun optim_groups :: "optim \<Rightarrow> grouped" where
  "optim_groups (Base cls g lr kw) = g"
| "optim_groups (Distributed opt nps hk) = optim_groups opt"
| "optim_groups (Amp opt lvl n) = optim_groups opt"

fun optim_kwargs :: "optim \<Rightarrow> dict" where
  "optim_kwargs (Base cls g lr kw) = kw"
| "optim_kwargs (Distributed opt nps hk) = optim_kwargs opt"
| "optim_kwargs (Amp opt lvl n) = optim_kwargs opt"

fun distributed_stage :: "optim \<Rightarrow> hvd_kwargs option" where
  "distributed_stage (Base cls g lr kw) = None"
| "distributed_stage (Distributed opt nps hk) = Some hk"
| "distributed_stage (Amp opt lvl n) = distributed_stage opt"



section \<open>The handle's operations and collective calls\<close>

text \<open>
  Modelled from the spec: the handle class \<^verbatim>\<open>bycha.optim.optimizer.Optimizer\<close> is not
  among the sources. Its operations are those of section 4.7 (step, zero_grad, rate,
  state_dict, load_state_dict). By sections 4.5 and 5 the only collective operation
  after construction is the gradient reduction that the distributed wrapper performs
  when the optimizer is advanced; every other operation, and every optimizer without
  that wrapper, issues none.
\<close>

datatype handle_op = Step | ZeroGrad | ReadRate | StateDict | LoadStateDict



section \<open>The handle as a state machine\<close>

text \<open>
  Modelled from the spec: the state a handle owns (section 3 and 4.7): the rate last
  written into the parameter groups, the state of the underlying optimizer, and the
  step counter of the rate schedule. The handle does not own the model; the model's
  parameter values \<open>'w\<close> are passed alongside. The rate schedule is a function of the
  step counter (section 4.2); the underlying optimizer's update is a function of the
  rate, the inputs of the step, the parameter values and its own state.
\<close>

record ('o, 'r) steering =
  current_rate :: 'r
  inner_state :: 'o
  schedule_step :: nat

text \<open>
  Modelled from the spec: a freshly built handle (section 4.4: the optimizer is
  instantiated with the schedule's initial rate).
\<close>

definition fresh_handle :: "(nat \<Rightarrow> 'r) \<Rightarrow> 'o \<Rightarrow> ('o, 'r) steering" where
  "fresh_handle schedule o0 = \<lparr>current_rate = schedule 0, inner_state = o0, schedule_step = 0\<rparr>"

text \<open>
  Modelled from the spec: \<^verbatim>\<open>step()\<close> "sets every parameter group's rate to the
  schedule's current value, then advances the underlying optimizer by one update, then
  advances the rate schedule's step counter".
\<close>

definition handle_step ::
  "(nat \<Rightarrow> 'r) \<Rightarrow> ('r \<Rightarrow> 'g \<Rightarrow> 'w \<times> 'o \<Rightarrow> 'w \<times> 'o) \<Rightarrow> 'g
     \<Rightarrow> 'w \<times> ('o, 'r) steering \<Rightarrow> 'w \<times> ('o, 'r) steering" where
  "handle_step schedule update g wh =
     (let r = schedule (schedule_step (snd wh));
          wo = update r g (fst wh, inner_state (snd wh))
      in (fst wo,
          \<lparr>current_rate = r, inner_state = snd wo,
           schedule_step = Suc (schedule_step (snd wh))\<rparr>))"

text \<open>
  Modelled from the spec: \<^verbatim>\<open>state_dict()\<close> / \<^verbatim>\<open>load_state_dict()\<close> "serialize/restore both
  the underlying optimizer's state and the rate schedule's step counter as one unit".
\<close>

definition state_dict :: "('o, 'r) steering \<Rightarrow> 'o \<times> nat" where
  "state_dict h = (inner_state h, schedule_step h)"

definition load_state_dict :: "'o \<times> nat \<Rightarrow> ('o, 'r) steering \<Rightarrow> ('o, 'r) steering" where
  "load_state_dict sd h = h\<lparr>inner_state := fst sd, schedule_step := snd sd\<rparr>"

text \<open>Modelled from the spec: the training loop's repeated \<^verbatim>\<open>step()\<close>, one per input.\<close>

fun steps ::
  "(nat \<Rightarrow> 'r) \<Rightarrow> ('r \<Rightarrow> 'g \<Rightarrow> 'w \<times> 'o \<Rightarrow> 'w \<times> 'o) \<Rightarrow> 'g list
     \<Rightarrow> 'w \<times> ('o, 'r) steering \<Rightarrow> 'w \<times> ('o, 'r) steering" where
  "steps schedule update [] wh = wh"
| "steps schedule update (g # gs) wh = steps schedule update gs (handle_step schedule update g wh)"

text \<open>Two handles at the same point of a run: same optimizer state, same step counter.\<close>

definition same_progress :: "('o, 'r) steering \<Rightarrow> ('o, 'r) steering \<Rightarrow> bool" where
  "same_progress h h' = (inner_state h = inner_state h' \<and> schedule_step h = schedule_step h')"

section \<open>Invariants of a run\<close>

text \<open>
  A relation between the state before and after that every step of a computation
  keeps; the instance used here: only the dict at one address changes.
\<close>

definition preserves :: "(state \<Rightarrow> state \<Rightarrow> bool) \<Rightarrow> 'a M \<Rightarrow> bool" where
  "preserves R m = (\<forall>s. R s (snd (m s)))"

definition same_but :: "addr \<Rightarrow> state \<Rightarrow> state \<Rightarrow> bool" where
  "same_but c s s' = (\<exists>d. heap s' = (heap s)[c := d])"

section \<open>Example inputs\<close>

text \<open>
  A sample of Python's \<^verbatim>\<open>eval\<close> on the strings used below (anything else raises, as an
  unbound name or a non-string argument does), a constant-rate scheduler factory, and
  two environments: one worker, and two workers with fp16.
\<close>

definition sample_eval :: "pyval \<Rightarrow> exn + pyval" where
  "sample_eval v =
     (case v of
        PStr s \<Rightarrow>
          (if s = ''4'' then Inr (PInt 4)
           else if s = ''True'' then Inr (PBool True)
           else if s = ''[1, 2]'' then Inr (PList [PInt 1, PInt 2])
           else Inl (Raised ''NameError''))
      | _ \<Rightarrow> Inl (TypeError ''eval() arg 1 must be a string''))"

definition sample_scheduler :: "pyval \<Rightarrow> exn + scheduler" where
  "sample_scheduler lr =
     (case lr of
        PDict kvs \<Rightarrow>
          (case map_of kvs ''rate'' of
             Some r \<Rightarrow> Inr \<lparr>policy = lr, built = False, rate = r\<rparr>
           | None \<Rightarrow> Inl (KeyError ''rate''))
      | _ \<Rightarrow> Inl (TypeError ''configs''))"

definition one_worker :: externals where
  "one_worker =
     \<lparr>py_eval = sample_eval, create_rate_scheduler = sample_scheduler,
      registry = [''adam'' \<mapsto> ''bycha.Adam''],
      torch_optim = [''SGD'' \<mapsto> ''torch.SGD'', ''Adam'' \<mapsto> ''torch.Adam''],
      handle_args = [''enable_apex'', ''update_frequency'', ''clip_norm''],
      init_error = (\<lambda>cls g r kw. None),
      distributed_world = 1, fp16 = False\<rparr>"

definition two_workers_fp16 :: externals where
  "two_workers_fp16 = one_worker\<lparr>distributed_world := 2, fp16 := True\<rparr>"

definition two_layer :: net where
  "two_layer =
     \<lparr>named_parameters = [(''linear.weight'', Tensor 0), (''linear.bias'', Tensor 1)],
      opt_level = None\<rparr>"

definition constant_lr :: pyval where
  "constant_lr = PDict [(''class'', PStr ''constant''), (''rate'', PFloat (1 / 10))]"

definition cfg_plain :: dict where
  "cfg_plain = [''class'' \<mapsto> PStr ''SGD'', ''lr'' \<mapsto> constant_lr,
                ''update_frequency'' \<mapsto> PStr ''4'', ''momentum'' \<mapsto> PStr ''high'']"

definition cfg_no_decay :: dict where
  "cfg_no_decay = [''class'' \<mapsto> PStr ''SGD'', ''lr'' \<mapsto> constant_lr,
                   ''no_decay'' \<mapsto> PList [PStr ''bias''], ''weight_decay'' \<mapsto> PFloat (1 / 100)]"





text \<open>The caller's state: its configuration is the only dict, nothing has happened yet.\<close>

definition caller :: "dict \<Rightarrow> state" where
  "caller c = \<lparr>heap = [c], trace = []\<rparr>"

section \<open>Running the stages\<close>

lemma returnM_apply: "returnM x s = (Inr x, s)"
  by (simp add: returnM_def)

lemma bindM_returnM: "bindM (returnM x) f = f x"
  by (simp add: bindM_def returnM_def)

lemma bindM_emit: "bindM (emit ev) f s = f () (s\<lparr>trace := trace s @ [ev]\<rparr>)"
  by (simp add: bindM_def emit_def)

lemma bindM_liftE:
  "bindM (liftE r) f s = (case r of Inl e \<Rightarrow> (Inl e, s) | Inr x \<Rightarrow> f x s)"
  by (simp add: bindM_def liftE_def split: sum.splits)

lemma bindM_dict_pop:
  "bindM (dict_pop a k) f s =
     (case (heap s ! a) k of
        None \<Rightarrow> (Inl (KeyError k), s)
      | Some v \<Rightarrow> f v (s\<lparr>heap := (heap s)[a := (heap s ! a)(k := None)]\<rparr>))"
  by (simp add: bindM_def dict_pop_def split: option.splits)

lemma bindM_get_dict: "bindM (get_dict a) f s = f (heap s ! a) s"
  by (simp add: bindM_def get_dict_def)

lemma bindM_new_dict: "bindM (new_dict d) f s = f (length (heap s)) (s\<lparr>heap := heap s @ [d]\<rparr>)"
  by (simp add: bindM_def new_dict_def)

lemma bindM_dict_contains: "bindM (dict_contains a k) f s = f (k \<in> dom (heap s ! a)) s"
  by (simp add: bindM_def dict_contains_def)

lemma bindM_assoc: "bindM (bindM m f) g = bindM m (\<lambda>x. bindM (f x) g)"
  by (auto simp: bindM_def fun_eq_iff split: prod.splits sum.splits)

lemma bindM_raiseM: "bindM (raiseM e) f s = (Inl e, s)"
  by (simp add: bindM_def raiseM_def)

lemma raiseM_apply: "raiseM e s = (Inl e, s)"
  by (simp add: raiseM_def)

lemmas exec = bindM_returnM bindM_emit bindM_liftE bindM_dict_pop bindM_get_dict bindM_new_dict
  bindM_dict_contains bindM_assoc bindM_raiseM returnM_apply raiseM_apply

lemma heap_tail1: "(h @ [d1, d2]) ! Suc (length h) = d2"
  by (simp add: nth_append)

lemma heap_upd1: "(h @ [d1, d2])[Suc (length h) := d] = h @ [d1, d]"
  by (simp add: list_update_append)

lemma resolve_run:
  "resolve X a s =
     (case (heap s ! a) ''class'' of
        None \<Rightarrow> (Inl (KeyError ''class''), s\<lparr>heap := heap s @ [heap s ! a]\<rparr>)
      | Some name \<Rightarrow> (Inr (name, Suc (length (heap s))), resolved X a name s))"
  by (simp add: resolve_def deepcopy_def eval_items_def resolved_def exec nth_append
      split: option.splits)

lemma build_schedule_run:
  "build_schedule X c s =
     (case (heap s ! c) ''lr'' of
        None \<Rightarrow> (Inl (KeyError ''lr''), s)
      | Some lr \<Rightarrow>
          (case create_rate_scheduler X lr of
             Inl e \<Rightarrow> (Inl e, s\<lparr>heap := (heap s)[c := (heap s ! c)(''lr'' := None)]\<rparr>)
           | Inr sch \<Rightarrow>
               (Inr (sch\<lparr>built := True\<rparr>),
                s\<lparr>heap := (heap s)[c := (heap s ! c)(''lr'' := None)],
                  trace := trace s @ [ScheduleCreated lr, ScheduleBuilt]\<rparr>)))"
  by (simp add: build_schedule_def exec split: option.splits sum.splits)


lemma pop_args_eq:
  "pop_args args (okw, c) =
     ((\<lambda>k. if k \<in> set args \<and> c k \<noteq> None then c k else okw k),
      (\<lambda>k. if k \<in> set args then None else c k))"
proof (induction args arbitrary: okw c)
  case Nil
  then show ?case by simp
next
  case (Cons key args)
  show ?case
  proof (cases "c key")
    case None
    then show ?thesis
      by (simp add: Cons.IH domIff fun_eq_iff)
  next
    case (Some v)
    then show ?thesis
      by (auto simp: Cons.IH domIff fun_eq_iff)
  qed
qed

lemma split_handle_kwargs_run:
  "split_handle_kwargs args c s =
     (Inr (keep_keys args (heap s ! c)),
      s\<lparr>heap := (heap s)[c := drop_keys args (heap s ! c)]\<rparr>)"
proof -
  have "(\<lambda>k. if k \<in> set args \<and> (heap s ! c) k \<noteq> None then (heap s ! c) k else None)
      = (\<lambda>k. if k \<in> set args then (heap s ! c) k else None)"
    by (auto simp: fun_eq_iff)
  then show ?thesis
    by (simp add: split_handle_kwargs_def pop_args_eq keep_keys_def drop_keys_def)
qed

lemma select_Nil_gen: "comprehension c [] = Inr ([], [])"
  by (simp add: comprehension_def)

lemma group_parameters_run:
  assumes "c < length (heap s)"
  shows "group_parameters model c s =
     (case (heap s ! c) ''no_decay'' of
        None \<Rightarrow> (Inr (Parameters (map snd (named_parameters model))), s)
      | Some no_decay \<Rightarrow>
          (case (heap s ! c) ''weight_decay'' of
             None \<Rightarrow> (Inl (KeyError ''weight_decay''),
                       s\<lparr>heap := (heap s)[c := (heap s ! c)(''no_decay'' := None)]\<rparr>)
           | Some wd \<Rightarrow>
               (case select (matches_none no_decay) (named_parameters model) of
                  Inl e \<Rightarrow> Inl e
                | Inr decayed \<Rightarrow>
                    Inr (Groups [\<lparr>params = decayed, weight_decay = wd\<rparr>,
                                 \<lparr>params = [], weight_decay = PFloat 0\<rparr>]),
                s\<lparr>heap := (heap s)[c := (heap s ! c)(''no_decay'' := None, ''weight_decay'' := None)]\<rparr>)))"
  using assms
  by (auto simp: group_parameters_def exec comprehension_def domIff split: option.splits sum.splits)

lemma construct_run:
  "construct X cls g lr c s =
     (case init_error X cls g lr (heap s ! c) of
        Some e \<Rightarrow> (Inl e, s)
      | None \<Rightarrow> (Inr (Base cls g lr (heap s ! c)), s\<lparr>trace := trace s @ [OptimizerConstructed cls]\<rparr>))"
  by (simp add: construct_def exec split: option.splits)

lemma distribute_run:
  "distribute X model opt okw apex s =
     (if 1 < distributed_world X
      then (Inr (Distributed opt (named_parameters model)
                  \<lparr>backward_passes_per_step = okw ''update_frequency'',
                   compression = (if fp16 X \<and> \<not> apex then Some Fp16 else None)\<rparr>),
            s\<lparr>trace := trace s @ [DistributedWrapped, BroadcastParameters 0, BroadcastOptimizerState 0]\<rparr>)
      else (Inr opt, s))"
  by (simp add: distribute_def exec)

lemma precision_run:
  "precision model opt okw apex s =
     (if apex
      then (Inr (model\<lparr>opt_level := Some ''O1''\<rparr>,
                 Amp opt ''O1'' (case okw ''update_frequency'' of Some v \<Rightarrow> v | None \<Rightarrow> PInt 1)),
            s\<lparr>trace := trace s @ [AmpInitialized]\<rparr>)
      else (Inr (model, opt), s))"
  by (simp add: precision_def exec)


lemma bindM_apply:
  "bindM m f s = (case m s of (Inl e, s') \<Rightarrow> (Inl e, s') | (Inr x, s') \<Rightarrow> f x s')"
  by (simp add: bindM_def)

lemma bindM_resolve:
  "bindM (resolve X a) f s =
     (case (heap s ! a) ''class'' of
        None \<Rightarrow> (Inl (KeyError ''class''), s\<lparr>heap := heap s @ [heap s ! a]\<rparr>)
      | Some name \<Rightarrow> f (name, Suc (length (heap s))) (resolved X a name s))"
  by (simp add: bindM_apply resolve_run split: option.splits)

lemma bindM_build_schedule:
  "bindM (build_schedule X c) f s =
     (case (heap s ! c) ''lr'' of
        None \<Rightarrow> (Inl (KeyError ''lr''), s)
      | Some lr \<Rightarrow>
          (case create_rate_scheduler X lr of
             Inl e \<Rightarrow> (Inl e, s\<lparr>heap := (heap s)[c := (heap s ! c)(''lr'' := None)]\<rparr>)
           | Inr sch \<Rightarrow>
               f (sch\<lparr>built := True\<rparr>)
                 (s\<lparr>heap := (heap s)[c := (heap s ! c)(''lr'' := None)],
                    trace := trace s @ [ScheduleCreated lr, ScheduleBuilt]\<rparr>)))"
  by (simp add: bindM_apply build_schedule_run split: option.splits sum.splits)

lemma bindM_split_handle_kwargs:
  "bindM (split_handle_kwargs args c) f s =
     f (keep_keys args (heap s ! c))
       (s\<lparr>heap := (heap s)[c := drop_keys args (heap s ! c)]\<rparr>)"
  by (simp add: bindM_apply split_handle_kwargs_run)

lemma bindM_group_parameters:
  assumes "c < length (heap s)"
  shows "bindM (group_parameters model c) f s =
     (case (heap s ! c) ''no_decay'' of
        None \<Rightarrow> f (Parameters (map snd (named_parameters model))) s
      | Some no_decay \<Rightarrow>
          (case (heap s ! c) ''weight_decay'' of
             None \<Rightarrow> (Inl (KeyError ''weight_decay''),
                       s\<lparr>heap := (heap s)[c := (heap s ! c)(''no_decay'' := None)]\<rparr>)
           | Some wd \<Rightarrow>
               (case select (matches_none no_decay) (named_parameters model) of
                  Inl e \<Rightarrow>
                    (Inl e, s\<lparr>heap := (heap s)[c := (heap s ! c)(''no_decay'' := None, ''weight_decay'' := None)]\<rparr>)
                | Inr decayed \<Rightarrow>
                    f (Groups [\<lparr>params = decayed, weight_decay = wd\<rparr>,
                               \<lparr>params = [], weight_decay = PFloat 0\<rparr>])
                      (s\<lparr>heap := (heap s)[c := (heap s ! c)(''no_decay'' := None, ''weight_decay'' := None)]\<rparr>))))"
  by (simp add: bindM_apply group_parameters_run [OF assms] split: option.splits sum.splits)

lemma bindM_construct:
  "bindM (construct X cls g lr c) f s =
     (case init_error X cls g lr (heap s ! c) of
        Some e \<Rightarrow> (Inl e, s)
      | None \<Rightarrow> f (Base cls g lr (heap s ! c)) (s\<lparr>trace := trace s @ [OptimizerConstructed cls]\<rparr>))"
  by (simp add: bindM_apply construct_run split: option.splits)

lemma bindM_distribute:
  "bindM (distribute X model opt okw apex) f s =
     (if 1 < distributed_world X
      then f (Distributed opt (named_parameters model)
                  \<lparr>backward_passes_per_step = okw ''update_frequency'',
                   compression = (if fp16 X \<and> \<not> apex then Some Fp16 else None)\<rparr>)
             (s\<lparr>trace := trace s @ [DistributedWrapped, BroadcastParameters 0, BroadcastOptimizerState 0]\<rparr>)
      else f opt s)"
  by (simp add: bindM_apply distribute_run)

lemma bindM_precision:
  "bindM (precision model opt okw apex) f s =
     (if apex
      then f (model\<lparr>opt_level := Some ''O1''\<rparr>,
              Amp opt ''O1'' (case okw ''update_frequency'' of Some v \<Rightarrow> v | None \<Rightarrow> PInt 1))
             (s\<lparr>trace := trace s @ [AmpInitialized]\<rparr>)
      else f (model, opt) s)"
  by (simp add: bindM_apply precision_run)

lemmas stages = bindM_resolve bindM_build_schedule bindM_split_handle_kwargs bindM_group_parameters
  bindM_construct bindM_distribute bindM_precision bindM_liftE bindM_returnM bindM_emit returnM_apply


lemma preserves_bindM:
  assumes trans: "\<And>s t u. R s t \<Longrightarrow> R t u \<Longrightarrow> R s u"
    and m: "preserves R m"
    and f: "\<And>x. preserves R (f x)"
  shows "preserves R (bindM m f)"
  unfolding preserves_def
proof
  fix s
  obtain r s1 where ms: "m s = (r, s1)"
    by (cases "m s")
  have R1: "R s s1"
    using m ms by (auto simp: preserves_def dest: spec [of _ s])
  show "R s (snd (bindM m f s))"
  proof (cases r)
    case (Inl e)
    then show ?thesis
      using ms R1 by (simp add: bindM_def)
  next
    case (Inr x)
    have "R s1 (snd (f x s1))"
      using f [of x] by (simp add: preserves_def)
    then show ?thesis
      using ms Inr R1 trans by (auto simp: bindM_def)
  qed
qed

lemma same_but_refl: "same_but c s s"
  unfolding same_but_def by (rule exI [of _ "heap s ! c"]) simp

lemma same_but_trans: "same_but c s t \<Longrightarrow> same_but c t u \<Longrightarrow> same_but c s u"
  by (auto simp: same_but_def)

lemma wrap_run:
  "wrap X model apex sch okw opt s =
     (Inr (if apex then model\<lparr>opt_level := Some ''O1''\<rparr> else model,
           \<lparr>h_model = (if apex then model\<lparr>opt_level := Some ''O1''\<rparr> else model),
            h_optimizer =
              (let dist = (if 1 < distributed_world X
                           then Distributed opt (named_parameters model)
                                  \<lparr>backward_passes_per_step = okw ''update_frequency'',
                                   compression = (if fp16 X \<and> \<not> apex then Some Fp16 else None)\<rparr>
                           else opt)
               in if apex
                  then Amp dist ''O1'' (case okw ''update_frequency'' of Some v \<Rightarrow> v | None \<Rightarrow> PInt 1)
                  else dist),
            h_lr_scheduler = sch,
            h_kwargs = okw(''enable_apex'' \<mapsto> PBool apex)\<rparr>),
      s\<lparr>trace := trace s
           @ (if 1 < distributed_world X
              then [DistributedWrapped, BroadcastParameters 0, BroadcastOptimizerState 0] else [])
           @ (if apex then [AmpInitialized] else [])
           @ [HandleConstructed]\<rparr>)"
  by (simp add: wrap_def stages)

lemma same_butI: "heap s' = (heap s)[c := d] \<Longrightarrow> same_but c s s'"
  by (auto simp: same_but_def)

lemma same_but_idI: "heap s' = heap s \<Longrightarrow> same_but c s s'"
  using same_butI [of s' s c "heap s ! c"] by simp

lemma preserves_returnM: "(\<And>s. R s s) \<Longrightarrow> preserves R (returnM x)"
  by (simp add: preserves_def returnM_def)

lemma preserves_liftE: "(\<And>s. R s s) \<Longrightarrow> preserves R (liftE r)"
  by (simp add: preserves_def liftE_def)

lemma preserves_dict_contains: "(\<And>s. R s s) \<Longrightarrow> preserves R (dict_contains a k)"
  by (simp add: preserves_def dict_contains_def)

lemma preserves_if:
  "(b \<Longrightarrow> preserves R m) \<Longrightarrow> (\<not> b \<Longrightarrow> preserves R n) \<Longrightarrow> preserves R (if b then m else n)"
  by simp

lemma preserves_case_prod:
  "(\<And>a b. preserves R (f a b)) \<Longrightarrow> preserves R (case p of (a, b) \<Rightarrow> f a b)"
  by (cases p) simp

text \<open>The stages after line 31 write to the dict \<open>configs\<close> only.\<close>

lemma same_but_dict_pop: "preserves (same_but c) (dict_pop c k)"
  by (auto simp: preserves_def dict_pop_def intro: same_butI same_but_idI split: option.splits)

lemma same_but_build_schedule: "preserves (same_but c) (build_schedule X c)"
  by (auto simp: preserves_def build_schedule_run intro: same_butI same_but_idI
      split: option.splits sum.splits)

lemma same_but_split_handle_kwargs: "preserves (same_but c) (split_handle_kwargs args c)"
  by (auto simp: preserves_def split_handle_kwargs_run intro: same_butI)

lemma same_but_construct: "preserves (same_but c) (construct X cls g lr c)"
  by (auto simp: preserves_def construct_run intro: same_but_idI split: option.splits)

lemma same_but_group_parameters: "preserves (same_but c) (group_parameters model c)"
  unfolding group_parameters_def
  apply (rule preserves_bindM [OF same_but_trans], assumption, assumption)
   apply (rule preserves_dict_contains [OF same_but_refl])
  apply (rule preserves_if)
   apply (rule preserves_bindM [OF same_but_trans], assumption, assumption)
    apply (rule preserves_returnM [OF same_but_refl])
   apply (rule preserves_bindM [OF same_but_trans], assumption, assumption)
    apply (rule same_but_dict_pop)
   apply (rule preserves_bindM [OF same_but_trans], assumption, assumption)
    apply (rule same_but_dict_pop)
   apply (rule preserves_bindM [OF same_but_trans], assumption, assumption)
    apply (rule preserves_liftE [OF same_but_refl])
   apply (rule preserves_case_prod)
   apply (rule preserves_bindM [OF same_but_trans], assumption, assumption)
    apply (rule preserves_liftE [OF same_but_refl])
   apply (rule preserves_case_prod)
   apply (rule preserves_returnM [OF same_but_refl])
  apply (rule preserves_returnM [OF same_but_refl])
  done

lemma same_but_base_optimizer: "preserves (same_but c) (base_optimizer X model name c)"
  unfolding base_optimizer_def
  apply (rule preserves_bindM [OF same_but_trans], assumption, assumption)
   apply (rule same_but_build_schedule)
  apply (rule preserves_bindM [OF same_but_trans], assumption, assumption)
   apply (rule same_but_split_handle_kwargs)
  apply (rule preserves_bindM [OF same_but_trans], assumption, assumption)
   apply (rule preserves_liftE [OF same_but_refl])
  apply (rule preserves_bindM [OF same_but_trans], assumption, assumption)
   apply (rule same_but_group_parameters)
  apply (rule preserves_bindM [OF same_but_trans], assumption, assumption)
   apply (rule same_but_construct)
  apply (rule preserves_returnM [OF same_but_refl])
  done

lemma base_optimizer_Inr:
  assumes run: "base_optimizer X model name c s = (Inr (sch, okw, opt), s')"
    and c: "c < length (heap s)"
  shows "\<exists>lr sch0 cls g kwf.
      (heap s ! c) ''lr'' = Some lr
    \<and> create_rate_scheduler X lr = Inr sch0
    \<and> sch = sch0\<lparr>built := True\<rparr>
    \<and> okw = keep_keys (handle_args X) ((heap s ! c)(''lr'' := None))
    \<and> find_class X name = Inr cls
    \<and> grouping model (drop_keys (handle_args X) ((heap s ! c)(''lr'' := None))) g kwf
    \<and> init_error X cls g (rate sch0) kwf = None
    \<and> opt = Base cls g (rate sch0) kwf
    \<and> trace s' = trace s @ [ScheduleCreated lr, ScheduleBuilt, OptimizerConstructed cls]"
  using run c unfolding base_optimizer_def
  by (auto simp: stages grouping_def split: option.splits sum.splits)




lemma resolved_heap [simp]:
  "heap (resolved X a name s) =
     heap s @ [(heap s ! a)(''class'' := None), eval_values X ((heap s ! a)(''class'' := None))]"
  by (simp add: resolved_def)

lemma resolved_trace [simp]: "trace (resolved X a name s) = trace s @ [Logged name]"
  by (simp add: resolved_def)

lemma resolved_kwargs [simp]:
  "heap (resolved X a name s) ! Suc (length (heap s)) = eval_values X ((heap s ! a)(''class'' := None))"
  by (simp add: nth_append)

lemma resolved_valid [simp]: "Suc (length (heap s)) < length (heap (resolved X a name s))"
  by simp

lemma build_optimizer_cases:
  assumes "build_optimizer X model a apex s = (r, s')"
  obtains
    (no_class) "(heap s ! a) ''class'' = None" and "r = Inl (KeyError ''class'')"
      and "s' = s\<lparr>heap := heap s @ [heap s ! a]\<rparr>"
  | (base_fails) name e where "(heap s ! a) ''class'' = Some name"
      and "base_optimizer X model name (Suc (length (heap s))) (resolved X a name s) = (Inl e, s')"
      and "r = Inl e"
  | (built) name sch okw opt s2 where "(heap s ! a) ''class'' = Some name"
      and "base_optimizer X model name (Suc (length (heap s))) (resolved X a name s)
             = (Inr (sch, okw, opt), s2)"
      and "wrap X model apex sch okw opt s2 = (r, s')"
proof (cases "(heap s ! a) ''class''")
  case None
  then show ?thesis
    using assms no_class by (simp add: build_optimizer_def bindM_resolve)
next
  case (Some name)
  have "build_optimizer X model a apex s =
      bindM (base_optimizer X model name (Suc (length (heap s))))
        (\<lambda>(sch, okw, opt). wrap X model apex sch okw opt) (resolved X a name s)"
    using Some by (simp add: build_optimizer_def bindM_resolve)
  then have step: "build_optimizer X model a apex s =
      (case base_optimizer X model name (Suc (length (heap s))) (resolved X a name s) of
         (Inl e, s2) \<Rightarrow> (Inl e, s2)
       | (Inr x, s2) \<Rightarrow> (case x of (sch, okw, opt) \<Rightarrow> wrap X model apex sch okw opt) s2)"
    by (simp add: bindM_apply)
  obtain r1 s2 where base:
    "base_optimizer X model name (Suc (length (heap s))) (resolved X a name s) = (r1, s2)"
    by (cases "base_optimizer X model name (Suc (length (heap s))) (resolved X a name s)")
  show ?thesis
  proof (cases r1)
    case (Inl e)
    then show ?thesis
      using assms Some base base_fails [of name e] by (simp add: step)
  next
    case (Inr x)
    obtain sch okw opt where x: "x = (sch, okw, opt)"
      by (cases x)
    show ?thesis
      using assms Some base Inr x built [of name sch okw opt s2] by (simp add: step)
  qed
qed

subsection \<open>The whole call\<close>

lemma base_frame:
  assumes "base_optimizer X model name (Suc (length (heap s))) (resolved X a name s) = (r1, s2)"
  shows "\<exists>d1 d. heap s2 = heap s @ [d1, d]"
proof -
  have "same_but (Suc (length (heap s))) (resolved X a name s) s2"
    using assms same_but_base_optimizer [of "Suc (length (heap s))" X model name]
    by (auto simp: preserves_def dest: spec [of _ "resolved X a name s"])
  then show ?thesis
    by (auto simp: same_but_def list_update_append)
qed

lemma built_facts:
  assumes "base_optimizer X model name (Suc (length (heap s))) (resolved X a name s)
             = (Inr (sch, okw, opt), s2)"
  shows "\<exists>lr sch0 cls g kwf.
      eval_values X ((heap s ! a)(''class'' := None)) ''lr'' = Some lr
    \<and> create_rate_scheduler X lr = Inr sch0
    \<and> sch = sch0\<lparr>built := True\<rparr>
    \<and> okw = keep_keys (handle_args X)
              ((eval_values X ((heap s ! a)(''class'' := None)))(''lr'' := None))
    \<and> find_class X name = Inr cls
    \<and> grouping model
          (drop_keys (handle_args X)
             ((eval_values X ((heap s ! a)(''class'' := None)))(''lr'' := None))) g kwf
    \<and> init_error X cls g (rate sch0) kwf = None
    \<and> opt = Base cls g (rate sch0) kwf
    \<and> trace s2 = trace s @ [Logged name, ScheduleCreated lr, ScheduleBuilt, OptimizerConstructed cls]"
  using base_optimizer_Inr [OF assms] by (simp add: heap_tail1)

lemma run_collapse:
  "\<not> isl (fst B) \<Longrightarrow> B = (Inr (fst (projr (fst B)), snd (projr (fst B))), snd B)"
  by (cases B; cases "fst B") auto



lemma build_optimizer_Inr_facts:
  assumes "build_optimizer X model configs apex s = (Inr (m, h), s')"
  shows "\<exists>name lr sch cls g kwf.
      (heap s ! configs) ''class'' = Some name
    \<and> eval_values X ((heap s ! configs)(''class'' := None)) ''lr'' = Some lr
    \<and> create_rate_scheduler X lr = Inr sch
    \<and> find_class X name = Inr cls
    \<and> grouping model
          (drop_keys (handle_args X)
             ((eval_values X ((heap s ! configs)(''class'' := None)))(''lr'' := None))) g kwf
    \<and> init_error X cls g (rate sch) kwf = None
    \<and> optim_groups (h_optimizer h) = g
    \<and> optim_kwargs (h_optimizer h) = kwf
    \<and> trace s' = trace s @ [Logged name, ScheduleCreated lr, ScheduleBuilt, OptimizerConstructed cls]
          @ (if 1 < distributed_world X
             then [DistributedWrapped, BroadcastParameters 0, BroadcastOptimizerState 0] else [])
          @ (if apex then [AmpInitialized] else [])
          @ [HandleConstructed]"
  using assms
proof (cases rule: build_optimizer_cases)
  case (built name sch okw opt s2)
  from built_facts [OF built(2)] obtain lr sch0 cls g kwf where f:
    "eval_values X ((heap s ! configs)(''class'' := None)) ''lr'' = Some lr"
    "create_rate_scheduler X lr = Inr sch0"
    "find_class X name = Inr cls"
    "grouping model
          (drop_keys (handle_args X)
             ((eval_values X ((heap s ! configs)(''class'' := None)))(''lr'' := None))) g kwf"
    "init_error X cls g (rate sch0) kwf = None"
    "opt = Base cls g (rate sch0) kwf"
    "trace s2 = trace s @ [Logged name, ScheduleCreated lr, ScheduleBuilt, OptimizerConstructed cls]"
    by blast
  have "optim_groups (h_optimizer h) = g" "optim_kwargs (h_optimizer h) = kwf"
    "trace s' = trace s2
          @ (if 1 < distributed_world X
             then [DistributedWrapped, BroadcastParameters 0, BroadcastOptimizerState 0] else [])
          @ (if apex then [AmpInitialized] else [])
          @ [HandleConstructed]"
    using built(3) f(6) by (auto simp: wrap_run Let_def)
  then show ?thesis
    using built(1) f by (intro exI [of _ name] exI [of _ lr] exI [of _ sch0] exI [of _ cls]
        exI [of _ g] exI [of _ kwf]) simp
qed simp_all
















subsection \<open>Steps of a handle\<close>

lemma steps_append:
  "steps schedule update (gs1 @ gs2) wh = steps schedule update gs2 (steps schedule update gs1 wh)"
  by (induction gs1 arbitrary: wh) simp_all

lemma handle_step_same_progress:
  "same_progress h h' \<Longrightarrow> handle_step schedule update g (w, h) = handle_step schedule update g (w, h')"
  by (simp add: handle_step_def same_progress_def)

lemma steps_same_progress:
  assumes "same_progress h h'"
  shows "fst (steps schedule update gs (w, h)) = fst (steps schedule update gs (w, h'))
     \<and> same_progress (snd (steps schedule update gs (w, h))) (snd (steps schedule update gs (w, h')))"
proof (cases gs)
  case Nil
  then show ?thesis
    using assms by simp
next
  case (Cons g gs')
  then show ?thesis
    using handle_step_same_progress [OF assms, of schedule update g w]
    by (simp add: same_progress_def)
qed

lemma load_state_dict_same_progress: "same_progress (load_state_dict (state_dict h) h0) h"
  by (simp add: same_progress_def load_state_dict_def state_dict_def)

subsection \<open>Parameter groups in general\<close>

text \<open>
  For exclusion substrings given as a list of strings, the comprehension of line 58
  selects the parameters whose names contain none of them. Without \<^verbatim>\<open>no_decay\<close> the
  optimizer gets the single group of all parameters; with it, the second group is
  empty whatever the names are.
\<close>

lemma any_in_strings:
  "any_in (map PStr subs) n = Inr (\<exists>sub \<in> set subs. contains sub n)"
  by (induction subs) auto

lemma select_no_match:
  "select (matches_none (PList (map PStr subs))) nps
     = Inr (map snd (filter (\<lambda>np. \<not> (\<exists>sub \<in> set subs. contains sub (fst np))) nps))"
  by (induction nps) (auto simp: matches_none_def matches_any_def any_in_strings)

lemma groups_built:
  assumes "build_optimizer X model configs apex s = (Inr (m, h), s')"
  shows "((heap s ! configs) ''no_decay'' = None \<longrightarrow>
            optim_groups (h_optimizer h) = Parameters (map snd (named_parameters model)))
       \<and> ((heap s ! configs) ''no_decay'' \<noteq> None \<and> ''no_decay'' \<notin> set (handle_args X) \<longrightarrow>
            (\<exists>decayed wd. optim_groups (h_optimizer h)
               = Groups [\<lparr>params = decayed, weight_decay = wd\<rparr>,
                         \<lparr>params = [], weight_decay = PFloat 0\<rparr>]))"
proof -
  let ?kw = "drop_keys (handle_args X)
             ((eval_values X ((heap s ! configs)(''class'' := None)))(''lr'' := None))"
  from build_optimizer_Inr_facts [OF assms]
  obtain g kwf where g: "grouping model ?kw g kwf" "optim_groups (h_optimizer h) = g"
    by blast
  have absent: "?kw ''no_decay'' = None" if "(heap s ! configs) ''no_decay'' = None"
    using that by (simp add: drop_keys_def eval_values_def)
  have present: "?kw ''no_decay'' \<noteq> None"
    if "(heap s ! configs) ''no_decay'' \<noteq> None" "''no_decay'' \<notin> set (handle_args X)"
    using that by (auto simp: drop_keys_def eval_values_def)
  show ?thesis
  proof (intro conjI impI)
    assume "(heap s ! configs) ''no_decay'' = None"
    then show "optim_groups (h_optimizer h) = Parameters (map snd (named_parameters model))"
      using g absent by (simp add: grouping_def)
  next
    assume "(heap s ! configs) ''no_decay'' \<noteq> None \<and> ''no_decay'' \<notin> set (handle_args X)"
    then obtain no_decay where "?kw ''no_decay'' = Some no_decay"
      using present by blast
    then show "\<exists>decayed wd. optim_groups (h_optimizer h)
               = Groups [\<lparr>params = decayed, weight_decay = wd\<rparr>,
                         \<lparr>params = [], weight_decay = PFloat 0\<rparr>]"
      using g by (auto simp: grouping_def)
  qed
qed

section \<open>The claims\<close>

subsection \<open>C1: parameter groups\<close>

text \<open>
  C1 (the code departs from it). With \<^verbatim>\<open>no_decay\<close> in the configuration, line 54 binds
  \<^verbatim>\<open>named_parameters\<close> to one generator, the comprehension of line 58 runs it to its
  end, and the comprehension of line 60 finds it exhausted. For the model with
  parameters \<^verbatim>\<open>linear.weight\<close> and \<^verbatim>\<open>linear.bias\<close> and \<^verbatim>\<open>no_decay = ['bias']\<close>,
  \<^verbatim>\<open>weight_decay = 0.01\<close>, the call returns, the decayed group holds \<^verbatim>\<open>linear.weight\<close>,
  and the zero-decay group is empty: \<^verbatim>\<open>linear.bias\<close> is in neither group, so the union
  of the groups is not the model's parameter set.
\<close>

theorem no_decay_parameters_dropped:
  "\<not> isl (fst (build_optimizer one_worker two_layer 0 False (caller cfg_no_decay)))
   \<and> optim_groups (h_optimizer (snd (projr (fst
        (build_optimizer one_worker two_layer 0 False (caller cfg_no_decay))))))
     = Groups [\<lparr>params = [Tensor 0], weight_decay = PFloat (1 / 100)\<rparr>,
               \<lparr>params = [], weight_decay = PFloat 0\<rparr>]"
  by code_simp

subsection \<open>C2: both precision paths requested\<close>




subsection \<open>C3: unknown optimizer class\<close>




subsection \<open>C4: missing keys\<close>




subsection \<open>C5: resolution of the optimizer class\<close>

text \<open>
  C5 as stated fails: the fallback lookup \<^verbatim>\<open>getattr(mod, name)\<close> of line 51 takes the
  name as written. In an environment whose registry has no \<^verbatim>\<open>sgd\<close> and whose standard
  namespace has \<^verbatim>\<open>SGD\<close>, the names \<^verbatim>\<open>SGD\<close> and \<^verbatim>\<open>sgd\<close> are equal up to case, the first
  resolves and the second raises AttributeError.
\<close>

theorem fallback_is_case_sensitive:
  "lower ''SGD'' = lower ''sgd''
   \<and> find_class one_worker (PStr ''SGD'') = Inr ''torch.SGD''
   \<and> find_class one_worker (PStr ''sgd'') = Inl (AttributeError ''sgd'')"
  by code_simp

text \<open>
  C5 (amended). Resolution is two-tier: the custom registry is consulted first, under
  the lower-cased name, so names that differ only in case resolve alike there; only
  if the lower-cased name is absent from the registry is the name looked up, exactly
  as written, in the standard namespace, and a name absent there too raises
  AttributeError.
\<close>

theorem class_resolution_two_tier:
  "find_class X (PStr n) =
     (case registry X (lower n) of
        Some c \<Rightarrow> Inr c
      | None \<Rightarrow> (case torch_optim X n of Some c \<Rightarrow> Inr c | None \<Rightarrow> Inl (AttributeError n)))
   \<and> (\<forall>n'. lower n' = lower n \<longrightarrow> lower n \<in> dom (registry X)
          \<longrightarrow> find_class X (PStr n') = find_class X (PStr n))"
  by (auto simp: find_class_def split: option.splits)

theorem class_resolution_two_tier_witness:
  "find_class one_worker (PStr ''Adam'') = Inr ''bycha.Adam''
   \<and> find_class one_worker (PStr ''ADAM'') = find_class one_worker (PStr ''Adam'')"
proof -
  have same: "lower ''ADAM'' = lower ''Adam''"
    by code_simp
  have known: "lower ''Adam'' \<in> dom (registry one_worker)"
    by code_simp
  have entry: "registry one_worker (lower ''Adam'') = Some ''bycha.Adam''"
    by code_simp
  show ?thesis
    using class_resolution_two_tier [of one_worker "''Adam''"] same known entry
    by simp
qed

subsection \<open>C6: the distributed stage and its broadcasts\<close>



subsection \<open>C7: literal evaluation of the values\<close>



subsection \<open>C8: cadence and compression of the distributed wrapper\<close>

text \<open>
  C8. When the worker count is greater than 1 and \<^verbatim>\<open>update_frequency\<close> is one of the
  handle's keyword arguments, a call that returns has wrapped the optimizer with
  \<^verbatim>\<open>backward_passes_per_step\<close> equal to the configured (literal-evaluated)
  \<^verbatim>\<open>update_frequency\<close>, which is also the value the handle receives; when the key is
  absent both are left at their defaults (1 in the wrapper, 1 in the configuration
  schema). Gradient compression is set exactly when fp16 is enabled and the apex path
  is not.
\<close>

theorem distributed_wrapper_cadence:
  assumes run: "build_optimizer X model configs apex s = (Inr (m, h), s')"
    and world: "1 < distributed_world X"
    and arg: "''update_frequency'' \<in> set (handle_args X)"
  shows "\<exists>hk. distributed_stage (h_optimizer h) = Some hk
     \<and> backward_passes_per_step hk
         = map_option (eval_or_keep X) ((heap s ! configs) ''update_frequency'')
     \<and> h_kwargs h ''update_frequency'' = backward_passes_per_step hk
     \<and> compression hk = (if fp16 X \<and> \<not> apex then Some Fp16 else None)"
  using run
proof (cases rule: build_optimizer_cases)
  case (built name sch okw opt s2)
  have okw: "okw = keep_keys (handle_args X)
      ((eval_values X ((heap s ! configs)(''class'' := None)))(''lr'' := None))"
    using built_facts [OF built(2)] by auto
  have uf: "okw ''update_frequency''
      = map_option (eval_or_keep X) ((heap s ! configs) ''update_frequency'')"
    using arg by (simp add: okw keep_keys_def eval_values_def)
  show ?thesis
    using built(3) world uf by (auto simp: wrap_run Let_def)
qed simp_all

theorem distributed_wrapper_cadence_witness:
  "\<exists>hk. distributed_stage (h_optimizer (snd (projr (fst
            (build_optimizer two_workers_fp16 two_layer 0 False (caller cfg_plain)))))) = Some hk
     \<and> backward_passes_per_step hk = Some (PInt 4)
     \<and> compression hk = Some Fp16"
proof -
  have ok: "\<not> isl (fst (build_optimizer two_workers_fp16 two_layer 0 False (caller cfg_plain)))"
    by code_simp
  have world: "1 < distributed_world two_workers_fp16"
    by (simp add: two_workers_fp16_def)
  have arg: "''update_frequency'' \<in> set (handle_args two_workers_fp16)"
    by (simp add: two_workers_fp16_def one_worker_def)
  have uf: "map_option (eval_or_keep two_workers_fp16)
              ((heap (caller cfg_plain) ! 0) ''update_frequency'') = Some (PInt 4)"
    by (simp add: caller_def cfg_plain_def eval_or_keep_def two_workers_fp16_def one_worker_def
        sample_eval_def)
  have fp: "fp16 two_workers_fp16"
    by (simp add: two_workers_fp16_def)
  show ?thesis
    using distributed_wrapper_cadence [OF run_collapse [OF ok] world arg] uf fp
    by auto
qed


subsection \<open>C9: checkpoint round trip\<close>

text \<open>
  C9, on the handle modelled from the spec. Take any inputs \<open>gs1\<close> and \<open>gs2\<close> (N and N
  of them in the claim). Run \<open>gs1\<close> from a fresh handle, emit \<^verbatim>\<open>state_dict()\<close>, build a
  fresh handle from the same configuration, restore with \<^verbatim>\<open>load_state_dict()\<close>, and run
  \<open>gs2\<close> on the model's parameter values as they stand (the model is not owned by the
  handle; its own save/load carries them). The final parameter values equal those of
  the uninterrupted run over \<open>gs1\<close> followed by \<open>gs2\<close>, the restored step counter is
  the saved one, and the step counter and optimizer state at the end agree too.
\<close>

theorem checkpoint_round_trip:
  "(let run1 = steps schedule update gs1 (w0, fresh_handle schedule o0);
        restored = load_state_dict (state_dict (snd run1)) (fresh_handle schedule o0);
        resumed = steps schedule update gs2 (fst run1, restored);
        straight = steps schedule update (gs1 @ gs2) (w0, fresh_handle schedule o0)
    in fst resumed = fst straight
     \<and> schedule_step restored = schedule_step (snd run1)
     \<and> schedule_step (snd resumed) = schedule_step (snd straight)
     \<and> inner_state (snd resumed) = inner_state (snd straight))"
proof -
  let ?run1 = "steps schedule update gs1 (w0, fresh_handle schedule o0)"
  let ?restored = "load_state_dict (state_dict (snd ?run1)) (fresh_handle schedule o0)"
  have same: "same_progress ?restored (snd ?run1)"
    by (rule load_state_dict_same_progress)
  have "steps schedule update (gs1 @ gs2) (w0, fresh_handle schedule o0)
      = steps schedule update gs2 (fst ?run1, snd ?run1)"
    by (simp add: steps_append)
  then show ?thesis
    using steps_same_progress [OF same, of schedule update gs2 "fst ?run1"] same
    by (simp add: Let_def same_progress_def)
qed

subsection \<open>C10: the caller's mapping\<close>

text \<open>
  C10. Whether \<^verbatim>\<open>build_optimizer\<close> returns or raises, every dict that existed before the
  call, the caller's configuration among them, is unchanged afterwards: the pops and
  the replaced values go to the copy of line 20 and to the new dict of line 23.
\<close>

theorem caller_mapping_unchanged:
  assumes run: "build_optimizer X model configs apex s = (r, s')"
    and valid: "configs < length (heap s)"
  shows "heap s' ! configs = heap s ! configs \<and> take (length (heap s)) (heap s') = heap s"
  using run
proof (cases rule: build_optimizer_cases)
  case no_class
  then show ?thesis
    using valid by (simp add: nth_append)
next
  case (base_fails name e)
  then obtain d1 d where "heap s' = heap s @ [d1, d]"
    using base_frame by blast
  then show ?thesis
    using valid by (simp add: nth_append)
next
  case (built name sch okw opt s2)
  then obtain d1 d where "heap s2 = heap s @ [d1, d]"
    using base_frame by blast
  moreover have "heap s' = heap s2"
    using built(3) by (auto simp: wrap_run)
  ultimately show ?thesis
    using valid by (simp add: nth_append)
qed


theorem caller_mapping_unchanged_witness:
  "heap (snd (build_optimizer one_worker two_layer 0 False (caller cfg_no_decay))) ! 0 = cfg_no_decay
   \<and> take 1 (heap (snd (build_optimizer one_worker two_layer 0 False (caller cfg_no_decay))))
       = [cfg_no_decay]"
proof -
  have valid: "0 < length (heap (caller cfg_no_decay))"
    by (simp add: caller_def)
  have run: "build_optimizer one_worker two_layer 0 False (caller cfg_no_decay)
      = (fst (build_optimizer one_worker two_layer 0 False (caller cfg_no_decay)),
         snd (build_optimizer one_worker two_layer 0 False (caller cfg_no_decay)))"
    by simp
  show ?thesis
    using caller_mapping_unchanged [OF run valid] by (simp add: caller_def)
qed

end
